theory Spec2Isabelle
  imports Main "HOL-Library.Sublist"
begin

section \<open>The GStreamer pipeline wrapper of gstreamer.py\<close>

subsection \<open>Data model\<close>

text \<open>
  Python values are modelled as follows: \<open>None\<close> is \<open>None\<close> of an option type, an
  unbounded integer is \<open>int\<close>, a tuple is a product. A tuple of two or four integers is
  never falsy, so \<open>not self.sink_size\<close> and \<open>not self.box\<close> hold exactly when the
  field is \<open>None\<close>. A \<open>Gst.Buffer\<close> and a \<open>Gst.Element\<close> are opaque objects and truthy;
  the type variable \<open>'b\<close> stands for the buffer handles.
\<close>

type_synonym size = "int \<times> int"

type_synonym region = "int \<times> int \<times> int \<times> int"

text \<open>The elements \<open>get_by_name\<close> looks up, each with the properties the code reads or sets.\<close>

record glbox_filter =
  gl_x :: int
  gl_y :: int
  gl_width :: int
  gl_height :: int

record glfilterbin =
  filter_child :: "glbox_filter option"

record videobox =
  vb_left :: int
  vb_top :: int
  vb_right :: int
  vb_bottom :: int

text \<open>
  An overlay element is modelled by the values its property has been set to, oldest first,
  so that every \<open>set_property\<close> call is visible.
\<close>

record rsvgoverlay =
  data_sets :: "string option list"

record glsvgoverlaysink =
  svg_sets :: "string option list"

record gst_pipeline =
  named_glbox :: "glfilterbin option"
  named_box :: "videobox option"

text \<open>The fields of \<open>GstPipeline\<close> set in \<open>__init__\<close>; the callback is passed separately.\<close>

record 'b GstPipeline =
  running :: bool
  gstbuffer :: "'b option"
  sink_size :: "size option"
  src_size :: size
  box :: "region option"
  pipeline :: gst_pipeline
  overlay :: "rsvgoverlay option"
  overlaysink :: "glsvgoverlaysink option"

text \<open>A pulled sample: the width and height of its caps, and \<open>sample.get_buffer()\<close>.\<close>

record 'b sample =
  caps_width :: int
  caps_height :: int
  get_buffer :: "'b option"

datatype FlowReturn = FLOW_OK | FLOW_EOS | FLOW_ERROR

text \<open>\<open>__init__\<close> (lines 29-40), for a parsed pipeline and its two overlay elements.\<close>

definition init :: "gst_pipeline \<Rightarrow> rsvgoverlay option \<Rightarrow> glsvgoverlaysink option \<Rightarrow> size
    \<Rightarrow> 'b GstPipeline" where
  "init p ov ovs src = \<lparr>running = False, gstbuffer = None, sink_size = None, src_size = src,
     box = None, pipeline = p, overlay = ov, overlaysink = ovs\<rparr>"

subsection \<open>The producer callback\<close>

text \<open>
  \<open>on_new_sample\<close> (lines 87-95): the first sample fixes \<open>sink_size\<close>; then, under the
  condition's lock, the slot \<open>gstbuffer\<close> is overwritten and the waiters are notified.
  There is no test of \<open>running\<close> and no other branch: the callback returns
  \<open>Gst.FlowReturn.OK\<close> always.
\<close>

definition on_new_sample :: "'b sample \<Rightarrow> 'b GstPipeline \<Rightarrow> FlowReturn \<times> 'b GstPipeline" where
  "on_new_sample smp self =
     (let self1 = (if sink_size self = None
                   then self\<lparr>sink_size := Some (caps_width smp, caps_height smp)\<rparr>
                   else self);
          self2 = self1\<lparr>gstbuffer := get_buffer smp\<rparr>
      in (FLOW_OK, self2))"

subsection \<open>The worker's critical section\<close>

text \<open>
  Lines 116-122 of \<open>inference_loop\<close>, one evaluation under the lock. \<open>Wait\<close> is the call
  of \<open>condition.wait()\<close>: the worker sleeps and evaluates the guard again once notified.
  \<open>Break\<close> leaves the loop; \<open>Taken\<close> carries the local variable \<open>gstbuffer\<close>.
\<close>

datatype 'b taken = Wait | Break | Taken "'b option"

definition take_or_wait :: "'b GstPipeline \<Rightarrow> 'b taken \<times> 'b GstPipeline" where
  "take_or_wait self =
     (if gstbuffer self = None \<and> running self then (Wait, self)
      else if \<not> running self then (Break, self)
      else (Taken (gstbuffer self), self\<lparr>gstbuffer := None\<rparr>))"

subsection \<open>Region resolution\<close>

text \<open>
  A failed \<open>assert\<close> raises \<open>AssertionError\<close>; reading a property of \<open>None\<close> would raise
  \<open>AttributeError\<close>.
\<close>

datatype fault = AssertionError | AttributeError

text \<open>Lines 99-101: the element named \<open>glbox\<close>, replaced by its child named \<open>filter\<close>.\<close>

definition gpu_filter :: "gst_pipeline \<Rightarrow> glbox_filter option" where
  "gpu_filter p = (case named_glbox p of None \<Rightarrow> None | Some bin \<Rightarrow> filter_child bin)"

text \<open>
  \<open>get_box\<close> (lines 97-112). The result is the returned tuple with the object as the call
  leaves it, or the exception raised; a raise leaves the object as it was.
\<close>

definition get_box :: "'b GstPipeline \<Rightarrow> fault + region \<times> 'b GstPipeline" where
  "get_box self =
     (case box self of
        Some cached \<Rightarrow> Inr (cached, self)
      | None \<Rightarrow>
          (let glbox = gpu_filter (pipeline self);
               vbox = named_box (pipeline self)
           in if glbox = None \<and> vbox = None then Inl AssertionError
              else case sink_size self of
                None \<Rightarrow> Inl AssertionError
              | Some (w, h) \<Rightarrow>
                  (case glbox of
                     Some g \<Rightarrow>
                       (let r = (gl_x g, gl_y g, gl_width g, gl_height g)
                        in Inr (r, self\<lparr>box := Some r\<rparr>))
                   | None \<Rightarrow>
                       (case vbox of
                          None \<Rightarrow> Inl AttributeError
                        | Some v \<Rightarrow>
                            (let r = (- vb_left v, - vb_top v,
                                      w + vb_left v + vb_right v,
                                      h + vb_top v + vb_bottom v)
                             in Inr (r, self\<lparr>box := Some r\<rparr>))))))"

subsection \<open>The worker's loop body\<close>

text \<open>
  The callback returns \<open>None\<close> or a string; \<open>if svg:\<close> holds for a non-empty string only.
\<close>

type_synonym 'b user_function = "'b option \<Rightarrow> size \<Rightarrow> region \<Rightarrow> string option"

fun truthy :: "string option \<Rightarrow> bool" where
  "truthy None = False"
| "truthy (Some s) = (s \<noteq> [])"

text \<open>Lines 131-135.\<close>

definition publish :: "string option \<Rightarrow> 'b GstPipeline \<Rightarrow> 'b GstPipeline" where
  "publish svg self =
     (if truthy svg then
        (let self1 = (case overlay self of
                        None \<Rightarrow> self
                      | Some ov \<Rightarrow> self\<lparr>overlay := Some (ov\<lparr>data_sets := data_sets ov @ [svg]\<rparr>)\<rparr>);
             self2 = (case overlaysink self1 of
                        None \<Rightarrow> self1
                      | Some sink \<Rightarrow>
                          self1\<lparr>overlaysink := Some (sink\<lparr>svg_sets := svg_sets sink @ [svg]\<rparr>)\<rparr>)
         in self2)
      else self)"

text \<open>
  Lines 129-135 for the buffer taken at line 121. An exception of \<open>get_box\<close> leaves the
  loop, and the thread ends.
\<close>

definition process_frame :: "'b user_function \<Rightarrow> 'b option \<Rightarrow> 'b GstPipeline
    \<Rightarrow> fault + 'b GstPipeline" where
  "process_frame user_function input_tensor self =
     (case get_box self of
        Inl e \<Rightarrow> Inl e
      | Inr (region, self1) \<Rightarrow>
          Inr (publish (user_function input_tensor (src_size self1) region) self1))"

subsection \<open>The threads, interleaved\<close>

text \<open>
  The worker is at the top of its loop (\<open>AtTop\<close>, also while it sleeps in \<open>wait\<close>),
  holds a buffer it has taken (\<open>Holding\<close>), has left the loop (\<open>Exited\<close>) or has died of
  an exception (\<open>Died\<close>). \<open>received\<close> lists the buffers it has taken, oldest first.
\<close>

datatype 'b worker = AtTop | Holding "'b option" | Exited | Died fault

record 'b system =
  gst :: "'b GstPipeline"
  worker :: "'b worker"
  received :: "'b option list"

text \<open>
  One step of one thread: the pipeline's thread delivers a sample, the worker runs its
  critical section or its loop body, the control thread clears \<open>running\<close> (lines 69-71),
  some thread calls \<open>get_box\<close>, or the properties of the pipeline's elements change.
\<close>

datatype 'b event =
    NewSample "'b sample"
  | WorkerStep
  | Shutdown
  | CallGetBox
  | Drift gst_pipeline

definition worker_step :: "'b user_function \<Rightarrow> 'b system \<Rightarrow> 'b system" where
  "worker_step uf sys =
     (case worker sys of
        AtTop \<Rightarrow>
          (case take_or_wait (gst sys) of
             (Wait, g) \<Rightarrow> sys\<lparr>gst := g\<rparr>
           | (Break, g) \<Rightarrow> sys\<lparr>gst := g, worker := Exited\<rparr>
           | (Taken f, g) \<Rightarrow> sys\<lparr>gst := g, worker := Holding f, received := received sys @ [f]\<rparr>)
      | Holding f \<Rightarrow>
          (case process_frame uf f (gst sys) of
             Inl e \<Rightarrow> sys\<lparr>worker := Died e\<rparr>
           | Inr g \<Rightarrow> sys\<lparr>gst := g, worker := AtTop\<rparr>)
      | Exited \<Rightarrow> sys
      | Died e \<Rightarrow> sys)"

fun step :: "'b user_function \<Rightarrow> 'b event \<Rightarrow> 'b system \<Rightarrow> 'b system" where
  "step uf (NewSample smp) sys = sys\<lparr>gst := snd (on_new_sample smp (gst sys))\<rparr>"
| "step uf WorkerStep sys = worker_step uf sys"
| "step uf Shutdown sys = sys\<lparr>gst := (gst sys)\<lparr>running := False\<rparr>\<rparr>"
| "step uf CallGetBox sys =
     (case get_box (gst sys) of Inl e \<Rightarrow> sys | Inr (r, g) \<Rightarrow> sys\<lparr>gst := g\<rparr>)"
| "step uf (Drift p) sys = sys\<lparr>gst := (gst sys)\<lparr>pipeline := p\<rparr>\<rparr>"

fun exec :: "'b user_function \<Rightarrow> 'b event list \<Rightarrow> 'b system \<Rightarrow> 'b system" where
  "exec uf [] sys = sys"
| "exec uf (e # es) sys = exec uf es (step uf e sys)"

text \<open>The system as lines 54-56 of \<open>run\<close> leave a fresh object: running, the worker started.\<close>

definition started :: "gst_pipeline \<Rightarrow> rsvgoverlay option \<Rightarrow> glsvgoverlaysink option \<Rightarrow> size
    \<Rightarrow> 'b system" where
  "started p ov ovs src =
     \<lparr>gst = (init p ov ovs src)\<lparr>running := True\<rparr>, worker = AtTop, received = []\<rparr>"


subsection \<open>The bus watch and the control thread\<close>

datatype message = EOS | WARNING string string | ERROR string string | OtherMessage

text \<open>
  \<open>on_bus_message\<close> (lines 74-85) reads no field of the object. Its effects are the text
  written to \<open>sys.stderr\<close> and whether \<open>Gtk.main_quit()\<close> is called; it returns \<open>True\<close>.
\<close>

record handled =
  retval :: bool
  written :: string
  main_quit :: bool

fun on_bus_message :: "message \<Rightarrow> handled" where
  "on_bus_message EOS = \<lparr>retval = True, written = [], main_quit = True\<rparr>"
| "on_bus_message (WARNING err debug) =
     \<lparr>retval = True, written = ''Warning: '' @ err @ '': '' @ debug @ [CHR 0x0A],
      main_quit = False\<rparr>"
| "on_bus_message (ERROR err debug) =
     \<lparr>retval = True, written = ''Error: '' @ err @ '': '' @ debug @ [CHR 0x0A],
      main_quit = True\<rparr>"
| "on_bus_message OtherMessage = \<lparr>retval = True, written = [], main_quit = False\<rparr>"

text \<open>
  What the main loop dispatches: a bus message, the \<open>delete-event\<close> of the window that
  \<open>setup_window\<close> connects to \<open>Gtk.main_quit\<close> (line 175; there is a window only with an
  \<open>overlaysink\<close>), or an exception that escapes \<open>Gtk.main()\<close>.
\<close>

datatype ui_event = Message message | WindowDeleted | MainRaises

datatype main_end = Quit | Raised

text \<open>
  \<open>Gtk.main()\<close>: events are dispatched until a handler has called \<open>Gtk.main_quit()\<close> or an
  exception escapes. With no event left the loop blocks for ever, which is \<open>None\<close>.
\<close>

fun gtk_main :: "bool \<Rightarrow> ui_event list \<Rightarrow> string \<Rightarrow> (main_end \<times> string) option" where
  "gtk_main has_window [] err = None"
| "gtk_main has_window (Message m # es) err =
     (let h = on_bus_message m
      in if main_quit h then Some (Quit, err @ written h)
         else gtk_main has_window es (err @ written h))"
| "gtk_main has_window (WindowDeleted # es) err =
     (if has_window then Some (Quit, err) else gtk_main has_window es err)"
| "gtk_main has_window (MainRaises # es) err = Some (Raised, err)"

datatype gst_state = STATE_NULL | STATE_READY | STATE_PAUSED | STATE_PLAYING

text \<open>The calls of the control thread, logged in the order \<open>run\<close> makes them.\<close>

datatype ctl_action =
    SetRunning bool
  | WorkerStart
  | SetState gst_state
  | GtkMain main_end
  | ContextIteration bool
  | ConditionAcquire
  | NotifyAll
  | ConditionRelease
  | WorkerJoin

record 'b process =
  obj :: "'b GstPipeline"
  pipeline_state :: gst_state
  trace :: "ctl_action list"
  stderr :: string

definition act :: "ctl_action \<Rightarrow> 'b process \<Rightarrow> 'b process" where
  "act a p = p\<lparr>trace := trace p @ [a]\<rparr>"

definition set_running :: "bool \<Rightarrow> 'b process \<Rightarrow> 'b process" where
  "set_running v p = act (SetRunning v) (p\<lparr>obj := (obj p)\<lparr>running := v\<rparr>\<rparr>)"

definition set_state :: "gst_state \<Rightarrow> 'b process \<Rightarrow> 'b process" where
  "set_state st p = act (SetState st) (p\<lparr>pipeline_state := st\<rparr>)"

text \<open>
  Lines 67-68: \<open>iteration(False)\<close> returns \<open>True\<close> for each of the \<open>pending\<close> dispatches and
  then \<open>False\<close>.
\<close>

fun drain :: "nat \<Rightarrow> 'b process \<Rightarrow> 'b process" where
  "drain 0 p = act (ContextIteration False) p"
| "drain (Suc n) p = drain n (act (ContextIteration True) p)"

text \<open>How a call ends: it returns, or an exception escapes it.\<close>

datatype completion = Returned | Uncaught fault

text \<open>
  \<open>run\<close> (lines 52-72). The bare \<open>except\<close> swallows whatever escapes \<open>Gtk.main()\<close>; the
  clean-up is the same however the main loop ended. \<open>None\<close>: the main loop never ends.
\<close>

definition run :: "ui_event list \<Rightarrow> nat \<Rightarrow> 'b process \<Rightarrow> (completion \<times> 'b process) option" where
  "run events pending p =
     (let p1 = act WorkerStart (set_running True p);
          p2 = set_state STATE_PLAYING p1
      in case gtk_main (overlaysink (obj p2) \<noteq> None) events (stderr p2) of
           None \<Rightarrow> None
         | Some (how, err) \<Rightarrow>
             (let p3 = act (GtkMain how) (p2\<lparr>stderr := err\<rparr>);
                  p4 = set_state STATE_NULL p3;
                  p5 = drain pending p4;
                  p6 = act ConditionRelease
                         (act NotifyAll (set_running False (act ConditionAcquire p5)));
                  p7 = act WorkerJoin p6
              in Some (Returned, p7)))"


text \<open>A fresh process around a fresh object.\<close>

definition fresh :: "gst_pipeline \<Rightarrow> rsvgoverlay option \<Rightarrow> glsvgoverlaysink option \<Rightarrow> size
    \<Rightarrow> 'b process" where
  "fresh p ov ovs src =
     \<lparr>obj = init p ov ovs src, pipeline_state = STATE_NULL, trace = [], stderr = []\<rparr>"

subsection \<open>Notions used to state the properties\<close>

text \<open>The buffers that \<open>n\<close> successive critical sections of the worker obtain.\<close>

fun takes :: "nat \<Rightarrow> 'b GstPipeline \<Rightarrow> 'b option list" where
  "takes 0 self = []"
| "takes (Suc n) self =
     (case take_or_wait self of
        (Taken f, self1) \<Rightarrow> f # takes n self1
      | (other, self1) \<Rightarrow> takes n self1)"


text \<open>A cached Region comes with a known sink size.\<close>

definition box_inv :: "'b GstPipeline \<Rightarrow> bool" where
  "box_inv self = (box self = None \<or> sink_size self \<noteq> None)"


subsection \<open>Concrete pipelines, samples and states\<close>

definition bare_pipeline :: gst_pipeline where
  "bare_pipeline = \<lparr>named_glbox = None, named_box = None\<rparr>"

definition crop_pipeline :: gst_pipeline where
  "crop_pipeline = \<lparr>named_glbox = None,
     named_box = Some \<lparr>vb_left = 0, vb_top = - 60, vb_right = 0, vb_bottom = - 60\<rparr>\<rparr>"

definition coral_pipeline :: gst_pipeline where
  "coral_pipeline =
     \<lparr>named_glbox = Some \<lparr>filter_child = Some \<lparr>gl_x = 0, gl_y = 30, gl_width = 320, gl_height = 180\<rparr>\<rparr>,
      named_box = Some \<lparr>vb_left = 0, vb_top = - 60, vb_right = 0, vb_bottom = - 60\<rparr>\<rparr>"

definition frame_sample :: "nat \<Rightarrow> nat sample" where
  "frame_sample k = \<lparr>caps_width = 640, caps_height = 480, get_buffer = Some k\<rparr>"

definition draw_box :: "nat user_function" where
  "draw_box f src r = Some ''<svg/>''"

definition draw_nothing :: "nat user_function" where
  "draw_nothing f src r = None"

definition draw_empty :: "nat user_function" where
  "draw_empty f src r = Some []"

definition demo :: "nat system" where
  "demo = started crop_pipeline (Some \<lparr>data_sets = []\<rparr>) None (640, 480)"

definition stopped_occupied :: "nat GstPipeline" where
  "stopped_occupied = gst (exec draw_box [NewSample (frame_sample 7), Shutdown] demo)"

definition torn_down :: "nat GstPipeline" where
  "torn_down = gst (exec draw_box [Shutdown] demo)"

definition no_mapping :: "nat GstPipeline" where
  "no_mapping =
     gst (exec draw_box [NewSample (frame_sample 1)] (started bare_pipeline None None (640, 480)))"


definition first_frame :: "nat system" where
  "first_frame = exec draw_box [NewSample (frame_sample 1)] demo"

definition resolved :: "nat GstPipeline" where
  "resolved = (gst first_frame)\<lparr>box := Some (0, 60, 640, 360)\<rparr>"

definition later_schedule :: "nat event list" where
  "later_schedule = [Drift coral_pipeline, NewSample (frame_sample 2), WorkerStep, WorkerStep,
     CallGetBox, Shutdown]"

definition both_sinks :: "nat GstPipeline" where
  "both_sinks = gst (exec draw_box [NewSample (frame_sample 1)]
     (started coral_pipeline (Some \<lparr>data_sets = []\<rparr>) (Some \<lparr>svg_sets = [Some ''old'']\<rparr>)
        (1920, 1080)))"

definition demo_process :: "nat process" where
  "demo_process = fresh crop_pipeline (Some \<lparr>data_sets = []\<rparr>) None (640, 480)"

section \<open>The frame mailbox\<close>

lemma deposit_slot: "gstbuffer (snd (on_new_sample smp self)) = get_buffer smp"
  by (simp add: on_new_sample_def Let_def)

lemma deposit_running: "running (snd (on_new_sample smp self)) = running self"
  by (simp add: on_new_sample_def Let_def)

lemma deposit_box: "box (snd (on_new_sample smp self)) = box self"
  by (simp add: on_new_sample_def Let_def)

lemma deposit_sink_size: "sink_size (snd (on_new_sample smp self)) \<noteq> None"
  by (simp add: on_new_sample_def Let_def)

lemma takes_empty_slot: "gstbuffer self = None \<Longrightarrow> takes n self = []"
  by (induction n) (auto simp: take_or_wait_def)

lemma takes_stopped: "\<not> running self \<Longrightarrow> takes n self = []"
  by (induction n) (auto simp: take_or_wait_def)

lemma takes_at_most_one: "length (takes n self) \<le> 1"
proof (cases n)
  case 0
  then show ?thesis by simp
next
  case (Suc m)
  show ?thesis
  proof (cases "gstbuffer self = None \<or> \<not> running self")
    case True
    then show ?thesis using takes_empty_slot takes_stopped by fastforce
  next
    case False
    then have "takes n self = [gstbuffer self]"
      using Suc by (simp add: take_or_wait_def takes_empty_slot)
    then show ?thesis by simp
  qed
qed

text \<open>
  C1, as amended. The mailbox is one slot and the latest frame wins. After two deposits
  with no take in between, the slot holds the second frame and nothing else, whatever
  the state of the object. What the worker can then retrieve, however often it takes,
  is exactly the second frame while the object is running, and nothing once \<open>running\<close>
  has been cleared. From no state do successive takes, with no deposit in between,
  obtain more than one frame.
\<close>

theorem mailbox_latest_frame_wins:
  assumes "get_buffer b = Some f"
  shows "gstbuffer (snd (on_new_sample b (snd (on_new_sample a self)))) = Some f
     \<and> takes (Suc n) (snd (on_new_sample b (snd (on_new_sample a self))))
         = (if running self then [Some f] else [])
     \<and> length (takes m other) \<le> 1"
proof -
  let ?s = "snd (on_new_sample b (snd (on_new_sample a self)))"
  have full: "gstbuffer ?s = Some f" using assms by (simp add: deposit_slot)
  have run: "running ?s = running self" by (simp add: deposit_running)
  have "takes (Suc n) ?s = (if running self then [Some f] else [])"
  proof (cases "running self")
    case True
    then show ?thesis
      using full run by (simp add: take_or_wait_def takes_empty_slot)
  next
    case False
    then have "\<not> running ?s" using run by simp
    then have "takes (Suc n) ?s = []" by (rule takes_stopped)
    then show ?thesis using False by simp
  qed
  then show ?thesis using full takes_at_most_one by blast
qed

theorem mailbox_latest_frame_wins_witness:
  "get_buffer (frame_sample 2) = Some 2
   \<and> running (gst demo)
   \<and> gstbuffer (snd (on_new_sample (frame_sample 2) (snd (on_new_sample (frame_sample 1) (gst demo)))))
       = Some 2
   \<and> takes (Suc 3) (snd (on_new_sample (frame_sample 2) (snd (on_new_sample (frame_sample 1) (gst demo)))))
       = [Some 2]
   \<and> \<not> running torn_down
   \<and> gstbuffer (snd (on_new_sample (frame_sample 2) (snd (on_new_sample (frame_sample 1) torn_down))))
       = Some 2
   \<and> takes (Suc 3) (snd (on_new_sample (frame_sample 2) (snd (on_new_sample (frame_sample 1) torn_down))))
       = []
   \<and> length (takes 4 stopped_occupied) \<le> 1"
proof -
  have h1: "running (gst demo)" by (simp add: demo_def started_def)
  have h2: "get_buffer (frame_sample 2) = Some 2" by (simp add: frame_sample_def)
  have h3: "\<not> running torn_down" by (simp add: torn_down_def demo_def started_def)
  show ?thesis
    using h1 h2 h3
      mailbox_latest_frame_wins [OF h2, where a = "frame_sample 1" and n = 3 and m = 4
        and other = stopped_occupied and self = "gst demo"]
      mailbox_latest_frame_wins [OF h2, where a = "frame_sample 1" and n = 3 and m = 4
        and other = stopped_occupied and self = torn_down]
    by simp
qed

text \<open>
  On a stopped object two deposits leave the second frame in the slot, and no take
  retrieves it.
\<close>

theorem two_deposits_stopped_nothing_retrievable:
  "\<not> running torn_down
   \<and> gstbuffer (snd (on_new_sample (frame_sample 2) (snd (on_new_sample (frame_sample 1) torn_down))))
       = Some 2
   \<and> takes (Suc (Suc (Suc 0)))
        (snd (on_new_sample (frame_sample 2) (snd (on_new_sample (frame_sample 1) torn_down))))
       = []"
  by (simp add: torn_down_def demo_def started_def init_def on_new_sample_def frame_sample_def
        take_or_wait_def Let_def)

text \<open>
  C2, as amended. The critical section waits exactly when the slot is empty and the object
  is running. It ends the loop exactly when the object is not running, whether the slot
  is empty or occupied, and then leaves the slot as it is. It takes a buffer exactly when
  the object is running and the slot is occupied: the buffer taken is the slot's, and the
  slot is empty afterwards.
\<close>

theorem take_or_wait_cases:
  "(fst (take_or_wait self) = Wait \<longleftrightarrow> gstbuffer self = None \<and> running self)
   \<and> (fst (take_or_wait self) = Break \<longleftrightarrow> \<not> running self)
   \<and> (fst (take_or_wait self) = Taken f \<longleftrightarrow> running self \<and> gstbuffer self = f \<and> f \<noteq> None)
   \<and> snd (take_or_wait self) = (if running self then self\<lparr>gstbuffer := None\<rparr> else self)"
  by (auto simp: take_or_wait_def)

theorem take_or_wait_cases_witness:
  "fst (take_or_wait (gst demo)) = Wait
   \<and> fst (take_or_wait (snd (on_new_sample (frame_sample 5) (gst demo)))) = Taken (Some 5)
   \<and> fst (take_or_wait torn_down) = Break"
proof -
  have "gstbuffer (gst demo) = None \<and> running (gst demo)"
    by (simp add: demo_def started_def init_def)
  moreover have "running (snd (on_new_sample (frame_sample 5) (gst demo)))
      \<and> gstbuffer (snd (on_new_sample (frame_sample 5) (gst demo))) = Some 5"
    by (simp add: demo_def started_def init_def on_new_sample_def frame_sample_def)
  moreover have "\<not> running torn_down"
    by (simp add: torn_down_def demo_def started_def)
  ultimately show ?thesis
    using take_or_wait_cases [of "gst demo" None]
      take_or_wait_cases [of "snd (on_new_sample (frame_sample 5) (gst demo))" "Some 5"]
      take_or_wait_cases [of torn_down None]
    by simp
qed

text \<open>
  With the object stopped and a frame in the slot, the critical section ends the loop;
  the frame stays in the slot and is not returned.
\<close>

theorem take_or_wait_stopped_occupied:
  "\<not> running stopped_occupied \<and> gstbuffer stopped_occupied = Some 7
   \<and> take_or_wait stopped_occupied = (Break, stopped_occupied)"
  by (simp add: stopped_occupied_def demo_def started_def init_def on_new_sample_def
        frame_sample_def take_or_wait_def)

section \<open>The order of the shut-down\<close>

lemma trace_act: "trace (act a p) = trace p @ [a]"
  by (simp add: act_def)

lemma obj_act: "obj (act a p) = obj p"
  by (simp add: act_def)

lemma trace_set_running: "trace (set_running v p) = trace p @ [SetRunning v]"
  by (simp add: set_running_def act_def)

lemma running_set_running: "running (obj (set_running v p)) = v"
  by (simp add: set_running_def act_def)

lemma trace_set_state: "trace (set_state st p) = trace p @ [SetState st]"
  by (simp add: set_state_def act_def)

lemma trace_drain:
  "trace (drain n p) = trace p @ replicate n (ContextIteration True) @ [ContextIteration False]"
  by (induction n arbitrary: p) (simp_all add: trace_act replicate_app_Cons_same)




lemma run_trace:
  assumes "run events pending p = Some (c, p')"
  shows "\<exists>how. trace p' = trace p @
           ([SetRunning True, WorkerStart, SetState STATE_PLAYING, GtkMain how, SetState STATE_NULL]
             @ replicate pending (ContextIteration True) @ [ContextIteration False])
           @ [ConditionAcquire, SetRunning False, NotifyAll, ConditionRelease, WorkerJoin]"
  using assms
  by (auto simp: run_def Let_def trace_act trace_set_running trace_set_state trace_drain
           split: option.splits prod.splits)

lemma run_clears_running:
  assumes "run events pending p = Some (c, p')"
  shows "\<not> running (obj p')"
  using assms
  by (auto simp: run_def Let_def obj_act running_set_running
           split: option.splits prod.splits)

text \<open>
  C3. Whenever \<open>run\<close> gets past the main loop, what it adds to the log of the control
  thread ends with: acquire the condition, clear \<open>running\<close>, notify all, release, join the
  worker. The join is the last call and occurs nowhere before, so it never precedes the
  clearing of the flag and the signal, which both happen under the lock; \<open>running\<close> is
  false when \<open>run\<close> returns.
\<close>

theorem join_after_flag_and_signal:
  assumes "run events pending p = Some (c, p')"
  shows "\<exists>pre. trace p' = trace p @ pre
             @ [ConditionAcquire, SetRunning False, NotifyAll, ConditionRelease, WorkerJoin]
           \<and> WorkerJoin \<notin> set pre \<and> \<not> running (obj p')"
proof -
  obtain how where t: "trace p' = trace p @
           ([SetRunning True, WorkerStart, SetState STATE_PLAYING, GtkMain how, SetState STATE_NULL]
             @ replicate pending (ContextIteration True) @ [ContextIteration False])
           @ [ConditionAcquire, SetRunning False, NotifyAll, ConditionRelease, WorkerJoin]"
    using run_trace [OF assms] by blast
  let ?pre = "[SetRunning True, WorkerStart, SetState STATE_PLAYING, GtkMain how, SetState STATE_NULL]
             @ replicate pending (ContextIteration True) @ [ContextIteration False]"
  have "WorkerJoin \<notin> set ?pre" by auto
  then show ?thesis using t run_clears_running [OF assms] by blast
qed

theorem join_after_flag_and_signal_witness:
  "run [Message (WARNING ''slow'' ''queue''), Message EOS] 1 demo_process
     = Some (Returned, demo_process
         \<lparr>trace := [SetRunning True, WorkerStart, SetState STATE_PLAYING, GtkMain Quit,
            SetState STATE_NULL, ContextIteration True, ContextIteration False,
            ConditionAcquire, SetRunning False, NotifyAll, ConditionRelease, WorkerJoin],
          stderr := ''Warning: slow: queue'' @ [CHR 0x0A]\<rparr>)
   \<and> (\<exists>pre. trace (demo_process
         \<lparr>trace := [SetRunning True, WorkerStart, SetState STATE_PLAYING, GtkMain Quit,
            SetState STATE_NULL, ContextIteration True, ContextIteration False,
            ConditionAcquire, SetRunning False, NotifyAll, ConditionRelease, WorkerJoin],
          stderr := ''Warning: slow: queue'' @ [CHR 0x0A]\<rparr>)
        = trace demo_process @ pre
            @ [ConditionAcquire, SetRunning False, NotifyAll, ConditionRelease, WorkerJoin]
        \<and> WorkerJoin \<notin> set pre)"
proof -
  have h: "run [Message (WARNING ''slow'' ''queue''), Message EOS] 1 demo_process
     = Some (Returned, demo_process
         \<lparr>trace := [SetRunning True, WorkerStart, SetState STATE_PLAYING, GtkMain Quit,
            SetState STATE_NULL, ContextIteration True, ContextIteration False,
            ConditionAcquire, SetRunning False, NotifyAll, ConditionRelease, WorkerJoin],
          stderr := ''Warning: slow: queue'' @ [CHR 0x0A]\<rparr>)"
    by (simp add: run_def Let_def demo_process_def fresh_def init_def act_def
          set_running_def set_state_def)
  show ?thesis using h join_after_flag_and_signal [OF h] by blast
qed

section \<open>What the worker receives\<close>













section \<open>Region resolution\<close>

lemma get_box_cached: "box self = Some r \<Longrightarrow> get_box self = Inr (r, self)"
  by (simp add: get_box_def)

lemma get_box_caches: "get_box self = Inr (r, g) \<Longrightarrow> box g = Some r"
  by (auto simp: get_box_def Let_def split: option.splits if_splits prod.splits)

lemma publish_box: "box (publish svg self) = box self"
  by (simp add: publish_def Let_def split: option.splits)

lemma publish_sink_size: "sink_size (publish svg self) = sink_size self"
  by (simp add: publish_def Let_def split: option.splits)

lemma take_box: "box (snd (take_or_wait self)) = box self"
  by (simp add: take_or_wait_def)

lemma take_sink_size: "sink_size (snd (take_or_wait self)) = sink_size self"
  by (simp add: take_or_wait_def)

lemma process_frame_cached:
  "box self = Some r \<Longrightarrow> \<exists>g. process_frame uf f self = Inr g \<and> box g = Some r"
  by (simp add: process_frame_def get_box_cached publish_box)

lemma step_keeps_box:
  assumes "box (gst sys) = Some r"
  shows "box (gst (step uf e sys)) = Some r"
proof (cases e)
  case (NewSample smp)
  then show ?thesis using assms by (simp add: deposit_box)
next
  case WorkerStep
  show ?thesis
  proof (cases "worker sys")
    case AtTop
    have "box (snd (take_or_wait (gst sys))) = Some r" using assms by (simp add: take_box)
    then show ?thesis using WorkerStep AtTop
      by (cases "take_or_wait (gst sys)") (auto simp: worker_step_def split: taken.splits)
  next
    case (Holding f)
    then show ?thesis using WorkerStep process_frame_cached [OF assms, of uf f]
      by (auto simp: worker_step_def)
  next
    case Exited
    then show ?thesis using WorkerStep assms by (simp add: worker_step_def)
  next
    case (Died x)
    then show ?thesis using WorkerStep assms by (simp add: worker_step_def)
  qed
next
  case Shutdown
  then show ?thesis using assms by simp
next
  case CallGetBox
  then show ?thesis using assms by (simp add: get_box_cached)
next
  case (Drift p)
  then show ?thesis using assms by simp
qed

lemma exec_keeps_box:
  "box (gst sys) = Some r \<Longrightarrow> box (gst (exec uf es sys)) = Some r"
  by (induction es arbitrary: sys) (simp_all add: step_keeps_box)

text \<open>
  C6. Once a call of \<open>get_box\<close> has returned a Region, the next call returns the same
  Region and changes nothing; so does a call after the properties of the pipeline's
  elements have changed in any way; and so does a call after any further run of the
  system (new samples, worker steps, shut-down, other calls, property changes).
\<close>

theorem get_box_memoized:
  assumes "get_box (gst sys) = Inr (r, g)"
  shows "get_box g = Inr (r, g)
     \<and> get_box (g\<lparr>pipeline := p'\<rparr>) = Inr (r, g\<lparr>pipeline := p'\<rparr>)
     \<and> get_box (gst (exec uf es (sys\<lparr>gst := g\<rparr>)))
          = Inr (r, gst (exec uf es (sys\<lparr>gst := g\<rparr>)))"
proof -
  have c: "box g = Some r" using assms by (rule get_box_caches)
  have "box (gst (exec uf es (sys\<lparr>gst := g\<rparr>))) = Some r"
    using c by (simp add: exec_keeps_box)
  then show ?thesis using c by (simp add: get_box_cached)
qed

theorem get_box_memoized_witness:
  "get_box (gst first_frame) = Inr ((0, 60, 640, 360), resolved)
   \<and> get_box resolved = Inr ((0, 60, 640, 360), resolved)
   \<and> get_box (resolved\<lparr>pipeline := coral_pipeline\<rparr>)
        = Inr ((0, 60, 640, 360), resolved\<lparr>pipeline := coral_pipeline\<rparr>)
   \<and> get_box (gst (exec draw_box later_schedule (first_frame\<lparr>gst := resolved\<rparr>)))
        = Inr ((0, 60, 640, 360), gst (exec draw_box later_schedule (first_frame\<lparr>gst := resolved\<rparr>)))"
proof -
  have h: "get_box (gst first_frame) = Inr ((0, 60, 640, 360), resolved)"
    by (simp add: resolved_def first_frame_def demo_def started_def init_def on_new_sample_def
          frame_sample_def get_box_def gpu_filter_def crop_pipeline_def Let_def)
  show ?thesis
    using h get_box_memoized [OF h, of coral_pipeline draw_box later_schedule] by blast
qed

text \<open>The invariant \<open>box_inv\<close> holds in every state the system reaches.\<close>

lemma get_box_inv: "get_box self = Inr (r, g) \<Longrightarrow> box_inv self \<Longrightarrow> box_inv g"
  by (auto simp: get_box_def box_inv_def Let_def split: option.splits if_splits prod.splits)

lemma publish_inv: "box_inv (publish svg self) = box_inv self"
  by (simp add: box_inv_def publish_box publish_sink_size)

lemma process_frame_inv: "process_frame uf f self = Inr g \<Longrightarrow> box_inv self \<Longrightarrow> box_inv g"
  by (auto simp: process_frame_def publish_inv split: sum.splits prod.splits dest: get_box_inv)

lemma step_inv:
  assumes "box_inv (gst sys)"
  shows "box_inv (gst (step uf e sys))"
proof (cases e)
  case (NewSample smp)
  then show ?thesis by (simp add: box_inv_def deposit_sink_size)
next
  case WorkerStep
  show ?thesis
  proof (cases "worker sys")
    case AtTop
    have "box_inv (snd (take_or_wait (gst sys)))"
      using assms by (simp add: box_inv_def take_box take_sink_size)
    then show ?thesis using WorkerStep AtTop
      by (cases "take_or_wait (gst sys)") (auto simp: worker_step_def split: taken.splits)
  next
    case (Holding f)
    then show ?thesis using WorkerStep assms
      by (auto simp: worker_step_def split: sum.splits dest: process_frame_inv)
  next
    case Exited
    then show ?thesis using WorkerStep assms by (simp add: worker_step_def)
  next
    case (Died x)
    then show ?thesis using WorkerStep assms by (simp add: worker_step_def)
  qed
next
  case Shutdown
  then show ?thesis using assms by (simp add: box_inv_def)
next
  case CallGetBox
  then show ?thesis using assms by (auto split: sum.splits dest: get_box_inv)
next
  case (Drift p)
  then show ?thesis using assms by (simp add: box_inv_def)
qed

lemma exec_inv: "box_inv (gst sys) \<Longrightarrow> box_inv (gst (exec uf es sys))"
  by (induction es arbitrary: sys) (simp_all add: step_inv)

lemma started_inv: "box_inv (gst (started p ov ovs src))"
  by (simp add: box_inv_def started_def init_def)

lemma get_box_no_sink_size:
  "box self = None \<Longrightarrow> sink_size self = None \<Longrightarrow> get_box self = Inl AssertionError"
  by (simp add: get_box_def Let_def)

lemma get_box_completes_iff:
  "sink_size self \<noteq> None \<Longrightarrow>
     (\<exists>r g. get_box self = Inr (r, g))
       = (box self \<noteq> None \<or> gpu_filter (pipeline self) \<noteq> None \<or> named_box (pipeline self) \<noteq> None)"
  by (auto simp: get_box_def Let_def split: option.splits prod.splits)

lemma get_box_fault_iff:
  "sink_size self \<noteq> None \<Longrightarrow>
     (get_box self = Inl AssertionError)
       = (box self = None \<and> gpu_filter (pipeline self) = None \<and> named_box (pipeline self) = None)"
  by (auto simp: get_box_def Let_def split: option.splits prod.splits)

text \<open>
  C7, as amended. In every state the system reaches from its start, a call of \<open>get_box\<close>
  made while the sink size is unknown raises \<open>AssertionError\<close> and returns no Region.
  Once the sink size is known, the assertion on it cannot fail: the call returns a Region
  exactly when a Region is cached or a mapping element is present (the filter of \<open>glbox\<close>
  or the element \<open>box\<close>), and it raises \<open>AssertionError\<close> exactly when no Region is cached
  and neither element is present.
\<close>

theorem get_box_sink_size_precondition:
  "(sink_size (gst (exec uf es (started p ov ovs src))) = None \<longrightarrow>
      get_box (gst (exec uf es (started p ov ovs src))) = Inl AssertionError)
   \<and> (sink_size self \<noteq> None \<longrightarrow>
        ((\<exists>r g. get_box self = Inr (r, g))
           \<longleftrightarrow> (box self \<noteq> None \<or> gpu_filter (pipeline self) \<noteq> None
                  \<or> named_box (pipeline self) \<noteq> None))
        \<and> ((get_box self = Inl AssertionError)
           \<longleftrightarrow> (box self = None \<and> gpu_filter (pipeline self) = None
                  \<and> named_box (pipeline self) = None)))"
proof -
  let ?g = "gst (exec uf es (started p ov ovs src))"
  have "box_inv ?g" using started_inv exec_inv by blast
  then have "sink_size ?g = None \<longrightarrow> get_box ?g = Inl AssertionError"
    by (auto simp: box_inv_def get_box_no_sink_size)
  then show ?thesis using get_box_completes_iff get_box_fault_iff by blast
qed

theorem get_box_sink_size_precondition_witness:
  "sink_size (gst (exec draw_box [WorkerStep, CallGetBox] demo)) = None
   \<and> get_box (gst (exec draw_box [WorkerStep, CallGetBox] demo)) = Inl AssertionError
   \<and> sink_size (gst first_frame) \<noteq> None
   \<and> named_box (pipeline (gst first_frame)) \<noteq> None
   \<and> (\<exists>r g. get_box (gst first_frame) = Inr (r, g))
   \<and> get_box (gst first_frame) \<noteq> Inl AssertionError"
proof -
  have h1: "sink_size (gst (exec draw_box [WorkerStep, CallGetBox] demo)) = None"
    by (simp add: demo_def started_def init_def worker_step_def take_or_wait_def get_box_def
          gpu_filter_def crop_pipeline_def Let_def)
  have h2: "sink_size (gst first_frame) \<noteq> None"
    by (simp add: first_frame_def demo_def started_def init_def on_new_sample_def)
  have h3: "named_box (pipeline (gst first_frame)) \<noteq> None"
    by (simp add: first_frame_def demo_def started_def init_def on_new_sample_def
          crop_pipeline_def)
  note inst = get_box_sink_size_precondition [where uf = draw_box
        and es = "[WorkerStep, CallGetBox]" and p = crop_pipeline
        and ov = "Some \<lparr>data_sets = []\<rparr>" and ovs = None
        and src = "(640, 480)" and self = "gst first_frame", folded demo_def]
  have c1: "get_box (gst (exec draw_box [WorkerStep, CallGetBox] demo)) = Inl AssertionError"
    using inst h1 by simp
  have c2: "\<exists>r g. get_box (gst first_frame) = Inr (r, g)"
    using inst h2 h3 by simp
  have c3: "get_box (gst first_frame) \<noteq> Inl AssertionError"
    using inst h2 h3 by simp
  show ?thesis using h1 h2 h3 c1 c2 c3 by simp
qed

text \<open>
  With the sink size known, no Region cached and neither mapping element in the pipeline,
  the call raises \<open>AssertionError\<close>.
\<close>

theorem get_box_without_mapping_element:
  "sink_size no_mapping = Some (640, 480) \<and> get_box no_mapping = Inl AssertionError"
  by (simp add: no_mapping_def started_def init_def on_new_sample_def frame_sample_def
        get_box_def gpu_filter_def bare_pipeline_def Let_def)

text \<open>
  C10. With no Region cached: if the pipeline has neither the filter of \<open>glbox\<close> nor the
  element \<open>box\<close>, the call raises \<open>AssertionError\<close>; a call that returns a Region had at
  least one of the two; when the filter of \<open>glbox\<close> is there and the sink size is known,
  the Region is the filter's \<open>x\<close>, \<open>y\<close>, \<open>width\<close>, \<open>height\<close>, whether or not \<open>box\<close> is there
  too; only without the filter is the Region computed from the insets of \<open>box\<close> and the
  sink size. The GPU filter is what lines 99-101 find: the child named \<open>filter\<close> of the
  element named \<open>glbox\<close>.
\<close>

theorem get_box_mapping_elements:
  assumes "box self = None"
  shows "(gpu_filter (pipeline self) = None \<and> named_box (pipeline self) = None
            \<longrightarrow> get_box self = Inl AssertionError)
     \<and> ((\<exists>r g. get_box self = Inr (r, g))
            \<longrightarrow> gpu_filter (pipeline self) \<noteq> None \<or> named_box (pipeline self) \<noteq> None)
     \<and> (gpu_filter (pipeline self) = Some gl \<and> sink_size self \<noteq> None
            \<longrightarrow> get_box self
                  = Inr ((gl_x gl, gl_y gl, gl_width gl, gl_height gl),
                         self\<lparr>box := Some (gl_x gl, gl_y gl, gl_width gl, gl_height gl)\<rparr>))
     \<and> (gpu_filter (pipeline self) = None \<and> named_box (pipeline self) = Some v
          \<and> sink_size self = Some (w, h)
            \<longrightarrow> get_box self
                  = Inr ((- vb_left v, - vb_top v, w + vb_left v + vb_right v,
                          h + vb_top v + vb_bottom v),
                         self\<lparr>box := Some (- vb_left v, - vb_top v, w + vb_left v + vb_right v,
                                             h + vb_top v + vb_bottom v)\<rparr>))"
  using assms
  by (auto simp: get_box_def Let_def split: option.splits prod.splits)

theorem get_box_mapping_elements_witness:
  "box no_mapping = None
   \<and> gpu_filter (pipeline no_mapping) = None \<and> named_box (pipeline no_mapping) = None
   \<and> get_box no_mapping = Inl AssertionError
   \<and> box both_sinks = None
   \<and> gpu_filter (pipeline both_sinks) = Some \<lparr>gl_x = 0, gl_y = 30, gl_width = 320, gl_height = 180\<rparr>
   \<and> named_box (pipeline both_sinks) \<noteq> None
   \<and> sink_size both_sinks \<noteq> None
   \<and> get_box both_sinks = Inr ((0, 30, 320, 180), both_sinks\<lparr>box := Some (0, 30, 320, 180)\<rparr>)
   \<and> box (gst first_frame) = None
   \<and> gpu_filter (pipeline (gst first_frame)) = None
   \<and> named_box (pipeline (gst first_frame))
        = Some \<lparr>vb_left = 0, vb_top = - 60, vb_right = 0, vb_bottom = - 60\<rparr>
   \<and> sink_size (gst first_frame) = Some (640, 480)
   \<and> get_box (gst first_frame)
        = Inr ((0, 60, 640, 360), (gst first_frame)\<lparr>box := Some (0, 60, 640, 360)\<rparr>)"
proof -
  have a: "box no_mapping = None" "gpu_filter (pipeline no_mapping) = None"
      "named_box (pipeline no_mapping) = None"
    by (simp_all add: no_mapping_def started_def init_def on_new_sample_def gpu_filter_def
          bare_pipeline_def)
  have b: "box both_sinks = None"
      "gpu_filter (pipeline both_sinks)
         = Some \<lparr>gl_x = 0, gl_y = 30, gl_width = 320, gl_height = 180\<rparr>"
      "named_box (pipeline both_sinks) \<noteq> None" "sink_size both_sinks \<noteq> None"
    by (simp_all add: both_sinks_def started_def init_def on_new_sample_def gpu_filter_def
          coral_pipeline_def)
  have c: "box (gst first_frame) = None" "gpu_filter (pipeline (gst first_frame)) = None"
      "named_box (pipeline (gst first_frame))
         = Some \<lparr>vb_left = 0, vb_top = - 60, vb_right = 0, vb_bottom = - 60\<rparr>"
      "sink_size (gst first_frame) = Some (640, 480)"
    by (simp_all add: first_frame_def demo_def started_def init_def on_new_sample_def
          gpu_filter_def crop_pipeline_def frame_sample_def)
  have r1: "get_box no_mapping = Inl AssertionError"
    using get_box_mapping_elements [OF a(1)] a(2,3) by simp
  have r2: "get_box both_sinks
              = Inr ((0, 30, 320, 180), both_sinks\<lparr>box := Some (0, 30, 320, 180)\<rparr>)"
    using get_box_mapping_elements [OF b(1),
        of "\<lparr>gl_x = 0, gl_y = 30, gl_width = 320, gl_height = 180\<rparr>"] b(2,4)
    by simp
  have r3: "get_box (gst first_frame)
              = Inr ((0, 60, 640, 360), (gst first_frame)\<lparr>box := Some (0, 60, 640, 360)\<rparr>)"
    using get_box_mapping_elements [OF c(1),
        where v = "\<lparr>vb_left = 0, vb_top = - 60, vb_right = 0, vb_bottom = - 60\<rparr>"
          and w = 640 and h = 480] c(2,3,4)
    by simp
  show ?thesis using a b c r1 r2 r3 by simp
qed

section \<open>Deposits after the shut-down\<close>

text \<open>
  C8, as amended. A deposit signals nothing to its caller, whatever the running state:
  \<open>on_new_sample\<close> returns \<open>OK\<close>, stores the sample's buffer in the slot and leaves
  \<open>running\<close> as it is; it does the same to a stopped object as to a running one.
\<close>

theorem deposit_ignores_running:
  "fst (on_new_sample smp self) = FLOW_OK
   \<and> gstbuffer (snd (on_new_sample smp self)) = get_buffer smp
   \<and> running (snd (on_new_sample smp self)) = running self
   \<and> snd (on_new_sample smp (self\<lparr>running := v\<rparr>)) = (snd (on_new_sample smp self))\<lparr>running := v\<rparr>"
  by (simp add: on_new_sample_def Let_def)

theorem deposit_ignores_running_witness:
  "\<not> running torn_down
   \<and> fst (on_new_sample (frame_sample 1) torn_down) = FLOW_OK
   \<and> gstbuffer (snd (on_new_sample (frame_sample 1) torn_down)) = Some 1
   \<and> \<not> running (snd (on_new_sample (frame_sample 1) torn_down))"
proof -
  have h: "\<not> running torn_down" by (simp add: torn_down_def demo_def started_def)
  have g: "get_buffer (frame_sample 1) = Some 1" by (simp add: frame_sample_def)
  show ?thesis using h g deposit_ignores_running [of "frame_sample 1" torn_down] by simp
qed

text \<open>
  After the shut-down has cleared \<open>running\<close>, a deposit returns \<open>OK\<close> and fills the slot.
\<close>

theorem deposit_after_shutdown_succeeds:
  "\<not> running torn_down
   \<and> on_new_sample (frame_sample 1) torn_down
       = (FLOW_OK, torn_down\<lparr>gstbuffer := Some 1, sink_size := Some (640, 480)\<rparr>)"
  by (simp add: torn_down_def demo_def started_def init_def on_new_sample_def frame_sample_def
        Let_def)

section \<open>Publishing the overlay\<close>

lemma get_box_keeps_sinks:
  "get_box self = Inr (r, g) \<Longrightarrow>
     overlay g = overlay self \<and> overlaysink g = overlaysink self \<and> src_size g = src_size self"
  by (auto simp: get_box_def Let_def split: option.splits if_splits prod.splits)

lemma publish_truthy:
  "truthy svg \<Longrightarrow>
     overlay (publish svg self)
       = map_option (\<lambda>ov. ov\<lparr>data_sets := data_sets ov @ [svg]\<rparr>) (overlay self)
   \<and> overlaysink (publish svg self)
       = map_option (\<lambda>sink. sink\<lparr>svg_sets := svg_sets sink @ [svg]\<rparr>) (overlaysink self)"
  by (simp add: publish_def Let_def split: option.splits)

lemma publish_falsy: "\<not> truthy svg \<Longrightarrow> publish svg self = self"
  by (simp add: publish_def)

text \<open>
  C9. For a frame whose Region resolves, the loop body completes. If the callback's
  result is a string \<open>s\<close> that is not empty, each overlay element that is present has
  exactly that result appended to the values set on it (\<open>data\<close> of \<open>overlay\<close>, \<open>svg\<close> of
  \<open>overlaysink\<close>), and an absent one stays absent. If the result is \<open>None\<close> or the empty
  string, neither element is set: both are as they were before the frame.
\<close>

theorem overlay_publication:
  assumes "get_box self = Inr (r, self1)"
  shows "\<exists>self'. process_frame uf f self = Inr self'
     \<and> (uf f (src_size self) r = Some s \<and> s \<noteq> [] \<longrightarrow>
          overlay self' = map_option
              (\<lambda>ov. ov\<lparr>data_sets := data_sets ov @ [Some s]\<rparr>) (overlay self)
          \<and> overlaysink self' = map_option
              (\<lambda>sink. sink\<lparr>svg_sets := svg_sets sink @ [Some s]\<rparr>) (overlaysink self))
     \<and> (uf f (src_size self) r = None \<or> uf f (src_size self) r = Some [] \<longrightarrow>
          overlay self' = overlay self \<and> overlaysink self' = overlaysink self)"
proof -
  have k: "overlay self1 = overlay self" "overlaysink self1 = overlaysink self"
      "src_size self1 = src_size self"
    using get_box_keeps_sinks [OF assms] by simp_all
  have p: "process_frame uf f self = Inr (publish (uf f (src_size self) r) self1)"
    using assms k by (simp add: process_frame_def)
  have full: "overlay (publish (uf f (src_size self) r) self1)
                = map_option (\<lambda>ov. ov\<lparr>data_sets := data_sets ov @ [Some s]\<rparr>) (overlay self)
            \<and> overlaysink (publish (uf f (src_size self) r) self1)
                = map_option (\<lambda>sink. sink\<lparr>svg_sets := svg_sets sink @ [Some s]\<rparr>)
                    (overlaysink self)"
    if "uf f (src_size self) r = Some s" and "s \<noteq> []"
  proof -
    have "truthy (uf f (src_size self) r)" using that by simp
    then show ?thesis
      using publish_truthy [of "uf f (src_size self) r" self1] that(1) k by simp
  qed
  have empty: "overlay (publish (uf f (src_size self) r) self1) = overlay self
            \<and> overlaysink (publish (uf f (src_size self) r) self1) = overlaysink self"
    if "uf f (src_size self) r = None \<or> uf f (src_size self) r = Some []"
  proof -
    have "\<not> truthy (uf f (src_size self) r)" using that by auto
    then show ?thesis
      using publish_falsy [of "uf f (src_size self) r" self1] k by simp
  qed
  show ?thesis using p full empty by blast
qed

theorem overlay_publication_witness:
  "get_box both_sinks = Inr ((0, 30, 320, 180), both_sinks\<lparr>box := Some (0, 30, 320, 180)\<rparr>)
   \<and> draw_box (Some 1) (src_size both_sinks) (0, 30, 320, 180) = Some ''<svg/>''
   \<and> ''<svg/>'' \<noteq> []
   \<and> (\<exists>self'. process_frame draw_box (Some 1) both_sinks = Inr self'
        \<and> overlay self' = Some \<lparr>data_sets = [Some ''<svg/>'']\<rparr>
        \<and> overlaysink self' = Some \<lparr>svg_sets = [Some ''old'', Some ''<svg/>'']\<rparr>)
   \<and> draw_nothing (Some 1) (src_size both_sinks) (0, 30, 320, 180) = None
   \<and> (\<exists>self'. process_frame draw_nothing (Some 1) both_sinks = Inr self'
        \<and> overlay self' = Some \<lparr>data_sets = []\<rparr>
        \<and> overlaysink self' = Some \<lparr>svg_sets = [Some ''old'']\<rparr>)
   \<and> draw_empty (Some 1) (src_size both_sinks) (0, 30, 320, 180) = Some []
   \<and> (\<exists>self'. process_frame draw_empty (Some 1) both_sinks = Inr self'
        \<and> overlay self' = Some \<lparr>data_sets = []\<rparr>
        \<and> overlaysink self' = Some \<lparr>svg_sets = [Some ''old'']\<rparr>)"
proof -
  have h: "get_box both_sinks
             = Inr ((0, 30, 320, 180), both_sinks\<lparr>box := Some (0, 30, 320, 180)\<rparr>)"
    by (simp add: both_sinks_def started_def init_def on_new_sample_def frame_sample_def
          get_box_def gpu_filter_def coral_pipeline_def Let_def)
  have d: "draw_box (Some 1) (src_size both_sinks) (0, 30, 320, 180) = Some ''<svg/>''"
    by (simp add: draw_box_def)
  have n: "draw_nothing (Some 1) (src_size both_sinks) (0, 30, 320, 180) = None"
    by (simp add: draw_nothing_def)
  have e: "draw_empty (Some 1) (src_size both_sinks) (0, 30, 320, 180) = Some []"
    by (simp add: draw_empty_def)
  have ov: "overlay both_sinks = Some \<lparr>data_sets = []\<rparr>"
    and ovs: "overlaysink both_sinks = Some \<lparr>svg_sets = [Some ''old'']\<rparr>"
    by (simp_all add: both_sinks_def started_def init_def on_new_sample_def)
  have c1: "\<exists>self'. process_frame draw_box (Some 1) both_sinks = Inr self'
        \<and> overlay self' = Some \<lparr>data_sets = [Some ''<svg/>'']\<rparr>
        \<and> overlaysink self' = Some \<lparr>svg_sets = [Some ''old'', Some ''<svg/>'']\<rparr>"
    using overlay_publication [OF h, of draw_box "Some 1" "''<svg/>''"] d ov ovs by auto
  have c2: "\<exists>self'. process_frame draw_nothing (Some 1) both_sinks = Inr self'
        \<and> overlay self' = Some \<lparr>data_sets = []\<rparr>
        \<and> overlaysink self' = Some \<lparr>svg_sets = [Some ''old'']\<rparr>"
    using overlay_publication [OF h, of draw_nothing "Some 1" "[]"] n ov ovs by auto
  have c3: "\<exists>self'. process_frame draw_empty (Some 1) both_sinks = Inr self'
        \<and> overlay self' = Some \<lparr>data_sets = []\<rparr>
        \<and> overlaysink self' = Some \<lparr>svg_sets = [Some ''old'']\<rparr>"
    using overlay_publication [OF h, of draw_empty "Some 1" "[]"] e ov ovs by auto
  show ?thesis using h d n e c1 c2 c3 by simp
qed

section \<open>How the process ends\<close>






end
